theory Spec2Isabelle
  imports Complex_Main "HOL-Library.Product_Lexorder"
begin

section \<open>The table and the values of the engine\<close>

text \<open>
  The program (\<^verbatim>\<open>src/duck_db.py\<close>) holds one table, \<^verbatim>\<open>yellow_taxi\<close>, in an embedded SQL
  engine and asks it a fixed set of queries. The model below gives each query of the
  source the meaning the SQL text has: a nullable column value is an \<open>option\<close>
  (\<open>None\<close> is NULL), a DOUBLE column is an exact rational (rounding is not modelled), a
  TIMESTAMP is the number of microseconds since 1970-01-01 00:00:00, and a table is the
  list of its rows in scan order. Only the columns that the modelled queries read are
  fields of the row.
\<close>

type_synonym timestamp = int

record trip =
  tpep_pickup_datetime :: "timestamp option"
  tpep_dropoff_datetime :: "timestamp option"
  trip_distance :: "rat option"
  fare_amount :: "rat option"
  tip_amount :: "rat option"
  payment_type :: "int option"

type_synonym table = "trip list"

datatype error = DivisionByZero | TypeError | CatalogError | BinderError | IOError

subsection \<open>Scalar functions\<close>

text \<open>\<^verbatim>\<open>EXTRACT(HOUR FROM ts)\<close>: the hour of the day, 0 to 23.\<close>

definition extract_hour :: "timestamp option \<Rightarrow> int option" where
  "extract_hour ts = map_option (\<lambda>t. (t div 3600000000) mod 24) ts"

text \<open>
  The civil date of a day number (days since 1970-01-01), by the usual era arithmetic
  of the proleptic Gregorian calendar; \<open>div\<close> on \<open>int\<close> rounds down.
\<close>

definition civil_from_days :: "int \<Rightarrow> int \<times> int \<times> int" where
  "civil_from_days z0 =
     (let z = z0 + 719468;
          era = z div 146097;
          doe = z - era * 146097;
          yoe = (doe - doe div 1460 + doe div 36524 - doe div 146096) div 365;
          doy = doe - (365 * yoe + yoe div 4 - yoe div 100);
          mp = (5 * doy + 2) div 153;
          d = doy - (153 * mp + 2) div 5 + 1;
          m = (if mp < 10 then mp + 3 else mp - 9);
          y = yoe + era * 400 + (if m \<le> 2 then 1 else 0)
      in (y, m, d))"

definition days_from_civil :: "int \<Rightarrow> int \<Rightarrow> int \<Rightarrow> int" where
  "days_from_civil y0 m d =
     (let y = (if m \<le> 2 then y0 - 1 else y0);
          era = y div 400;
          yoe = y - era * 400;
          doy = (153 * (if m > 2 then m - 3 else m + 9) + 2) div 5 + d - 1;
          doe = yoe * 365 + yoe div 4 - yoe div 100 + doy
      in era * 146097 + doe - 719468)"

text \<open>The timestamp written \<^verbatim>\<open>y-m-d hh:mm:ss\<close> in the CSV source.\<close>

definition mk_timestamp :: "int \<Rightarrow> int \<Rightarrow> int \<Rightarrow> int \<Rightarrow> int \<Rightarrow> int \<Rightarrow> timestamp" where
  "mk_timestamp y m d hh mm ss =
     (((days_from_civil y m d * 24 + hh) * 60 + mm) * 60 + ss) * 1000000"

text \<open>\<^verbatim>\<open>EXTRACT(DAY FROM ts)\<close>: the day of the month, 1 to 31.\<close>

definition extract_day :: "timestamp option \<Rightarrow> int option" where
  "extract_day ts = map_option (\<lambda>t. snd (snd (civil_from_days (t div 86400000000)))) ts"

text \<open>\<^verbatim>\<open>DAYNAME(ts)\<close>: 1970-01-01 was a Thursday.\<close>

definition dayname :: "timestamp option \<Rightarrow> string option" where
  "dayname ts = map_option (\<lambda>t.
     [''Sunday'', ''Monday'', ''Tuesday'', ''Wednesday'', ''Thursday'', ''Friday'', ''Saturday'']
       ! nat ((t div 86400000000 + 4) mod 7)) ts"

text \<open>\<^verbatim>\<open>NULLIF(a, b)\<close>: NULL when \<open>a = b\<close>, else \<open>a\<close>.\<close>

definition nullif :: "rat option \<Rightarrow> rat \<Rightarrow> rat option" where
  "nullif a b = (case a of None \<Rightarrow> None | Some x \<Rightarrow> if x = b then None else Some x)"

text \<open>
  Division. A NULL operand gives NULL. What the engine answers for a zero divisor is
  not fixed by the source (an error in standard SQL, NULL or an infinity in others), so
  the model makes it an explicit error outcome and the theorems show where the source's
  queries never reach it.
\<close>

definition sql_div :: "rat option \<Rightarrow> rat option \<Rightarrow> error + rat option" where
  "sql_div a b =
     (case (a, b) of
        (Some x, Some y) \<Rightarrow> if y = 0 then Inl DivisionByZero else Inr (Some (x / y))
      | _ \<Rightarrow> Inr None)"

subsection \<open>Aggregates\<close>

fun non_nulls :: "'a option list \<Rightarrow> 'a list" where
  "non_nulls [] = []"
| "non_nulls (None # vs) = non_nulls vs"
| "non_nulls (Some x # vs) = x # non_nulls vs"

text \<open>\<^verbatim>\<open>AVG\<close> and \<^verbatim>\<open>SUM\<close> skip NULL inputs and are NULL when no input is left.\<close>

definition sql_avg :: "rat option list \<Rightarrow> rat option" where
  "sql_avg vs =
     (case non_nulls vs of [] \<Rightarrow> None
      | x # xs \<Rightarrow> Some (sum_list (x # xs) / of_nat (length (x # xs))))"

definition sql_sum :: "rat option list \<Rightarrow> rat option" where
  "sql_sum vs = (case non_nulls vs of [] \<Rightarrow> None | x # xs \<Rightarrow> Some (sum_list (x # xs)))"

text \<open>The first error of a list of results, or all the values.\<close>

fun collect :: "(error + 'a) list \<Rightarrow> error + 'a list" where
  "collect [] = Inr []"
| "collect (Inl e # rs) = Inl e"
| "collect (Inr v # rs) = (case collect rs of Inl e \<Rightarrow> Inl e | Inr vs \<Rightarrow> Inr (v # vs))"

subsection \<open>GROUP BY and ORDER BY\<close>

text \<open>
  \<^verbatim>\<open>GROUP BY\<close>: one group for each distinct key, NULL keys forming a group of their own;
  the groups are listed in the order their keys are first seen in the scan.
\<close>

definition group_keys :: "('r \<Rightarrow> 'k) \<Rightarrow> 'r list \<Rightarrow> 'k list" where
  "group_keys key tbl = rev (remdups (rev (map key tbl)))"

definition group_rows :: "('r \<Rightarrow> 'k) \<Rightarrow> 'r list \<Rightarrow> 'k \<Rightarrow> 'r list" where
  "group_rows key tbl k = filter (\<lambda>r. key r = k) tbl"

text \<open>
  The sort key of a nullable value for \<^verbatim>\<open>ORDER BY ... ASC\<close>, NULLs last (the engine's
  default null order): pairs are compared lexicographically and \<open>False < True\<close>.
\<close>

definition nulls_last :: "'a::zero option \<Rightarrow> bool \<times> 'a" where
  "nulls_last v = (case v of None \<Rightarrow> (True, 0) | Some x \<Rightarrow> (False, x))"

section \<open>Trips by hour of day\<close>

text \<open>
  The expression \<^verbatim>\<open>tip_amount / NULLIF(fare_amount, 0)\<close> of one row
  (\<^verbatim>\<open>analyze_trips_by_hour\<close>, line 68; \<^verbatim>\<open>analyze_payment_methods\<close>, line 225).
\<close>

definition tip_ratio :: "trip \<Rightarrow> error + rat option" where
  "tip_ratio r = sql_div (tip_amount r) (nullif (fare_amount r) 0)"

text \<open>\<^verbatim>\<open>AVG(tip_amount / NULLIF(fare_amount, 0)) * 100\<close> over the rows of a group.\<close>

definition avg_tip_percentage :: "trip list \<Rightarrow> error + rat option" where
  "avg_tip_percentage rows =
     (case collect (map tip_ratio rows) of
        Inl e \<Rightarrow> Inl e
      | Inr vs \<Rightarrow> Inr (map_option (\<lambda>a. a * 100) (sql_avg vs)))"

record hour_row =
  h_hour_of_day :: "int option"
  h_trip_count :: nat
  h_avg_distance :: "rat option"
  h_avg_fare :: "rat option"
  h_avg_tip :: "rat option"
  h_avg_tip_percentage :: "rat option"

text \<open>The result row of one group of the query of \<^verbatim>\<open>analyze_trips_by_hour\<close> (lines 62-68).\<close>

definition hour_key :: "trip \<Rightarrow> int option" where
  "hour_key r = extract_hour (tpep_pickup_datetime r)"

definition hour_group :: "table \<Rightarrow> int option \<Rightarrow> error + hour_row" where
  "hour_group tbl k =
     (let rows = group_rows hour_key tbl k in
      case avg_tip_percentage rows of
        Inl e \<Rightarrow> Inl e
      | Inr pct \<Rightarrow> Inr \<lparr>h_hour_of_day = k,
                       h_trip_count = length rows,
                       h_avg_distance = sql_avg (map trip_distance rows),
                       h_avg_fare = sql_avg (map fare_amount rows),
                       h_avg_tip = sql_avg (map tip_amount rows),
                       h_avg_tip_percentage = pct\<rparr>)"

text \<open>
  The query of \<^verbatim>\<open>analyze_trips_by_hour\<close> (lines 61-72):
  \<^verbatim>\<open>SELECT ... FROM yellow_taxi GROUP BY hour_of_day ORDER BY hour_of_day\<close>.
\<close>

definition trips_by_hour_query :: "table \<Rightarrow> error + hour_row list" where
  "trips_by_hour_query tbl =
     (case collect (map (hour_group tbl) (group_keys hour_key tbl)) of
        Inl e \<Rightarrow> Inl e
      | Inr rows \<Rightarrow> Inr (sort_key (\<lambda>g. nulls_last (h_hour_of_day g)) rows))"

subsection \<open>The Python side: building the returned dictionary\<close>



definition bind :: "error + 'a \<Rightarrow> ('a \<Rightarrow> error + 'b) \<Rightarrow> error + 'b" where
  "bind m f = (case m of Inl e \<Rightarrow> Inl e | Inr v \<Rightarrow> f v)"






text \<open>
  The connection: the database holds the table \<^verbatim>\<open>yellow_taxi\<close> or does not. A query on
  a table that does not exist raises (a catalog error).
\<close>

record db =
  yellow_taxi :: "table option"

definition with_table :: "db \<Rightarrow> (table \<Rightarrow> error + 'a) \<Rightarrow> error + 'a" where
  "with_table con q = (case yellow_taxi con of None \<Rightarrow> Inl CatalogError | Some tbl \<Rightarrow> q tbl)"





section \<open>Payment methods\<close>

text \<open>The \<^verbatim>\<open>CASE payment_type ... END\<close> of lines 212-220; NULL matches no \<^verbatim>\<open>WHEN\<close>.\<close>

definition payment_desc :: "int option \<Rightarrow> string" where
  "payment_desc p =
     (if p = Some 1 then ''Credit card''
      else if p = Some 2 then ''Cash''
      else if p = Some 3 then ''No charge''
      else if p = Some 4 then ''Dispute''
      else if p = Some 5 then ''Unknown''
      else if p = Some 6 then ''Voided''
      else ''Other'')"

record payment_row =
  p_payment_type :: "int option"
  p_payment_desc :: string
  p_trip_count :: nat
  p_avg_fare :: "rat option"
  p_avg_tip :: "rat option"
  p_total_tips :: "rat option"
  p_avg_tip_percentage :: "rat option"

definition payment_key :: "trip \<Rightarrow> int option \<times> string" where
  "payment_key r = (payment_type r, payment_desc (payment_type r))"

definition payment_group :: "table \<Rightarrow> int option \<times> string \<Rightarrow> error + payment_row" where
  "payment_group tbl k =
     (let rows = group_rows payment_key tbl k in
      case avg_tip_percentage rows of
        Inl e \<Rightarrow> Inl e
      | Inr pct \<Rightarrow> Inr \<lparr>p_payment_type = fst k,
                       p_payment_desc = snd k,
                       p_trip_count = length rows,
                       p_avg_fare = sql_avg (map fare_amount rows),
                       p_avg_tip = sql_avg (map tip_amount rows),
                       p_total_tips = sql_sum (map tip_amount rows),
                       p_avg_tip_percentage = pct\<rparr>)"

text \<open>
  The query of \<^verbatim>\<open>analyze_payment_methods\<close> (lines 209-229):
  \<^verbatim>\<open>GROUP BY payment_type, payment_desc ORDER BY trip_count DESC\<close>. Groups with the same
  count stay in first-seen order (the sort is stable).
\<close>

definition payment_query :: "table \<Rightarrow> error + payment_row list" where
  "payment_query tbl =
     (case collect (map (payment_group tbl) (group_keys payment_key tbl)) of
        Inl e \<Rightarrow> Inl e
      | Inr rows \<Rightarrow> Inr (sort_key (\<lambda>g. - int (p_trip_count g)) rows))"




section \<open>Busy days and times\<close>

text \<open>
  SQL comparisons and \<^verbatim>\<open>AND\<close> are three-valued: a NULL operand of a comparison gives
  NULL, \<^verbatim>\<open>FALSE AND NULL\<close> is FALSE and \<^verbatim>\<open>TRUE AND NULL\<close> is NULL. \<^verbatim>\<open>WHERE\<close> keeps the rows
  whose condition is TRUE.
\<close>

definition sql_gt :: "'a::linorder option \<Rightarrow> 'a option \<Rightarrow> bool option" where
  "sql_gt a b = (case (a, b) of (Some x, Some y) \<Rightarrow> Some (x > y) | _ \<Rightarrow> None)"

definition sql_and :: "bool option \<Rightarrow> bool option \<Rightarrow> bool option" where
  "sql_and a b =
     (if a = Some False \<or> b = Some False then Some False
      else if a = Some True \<and> b = Some True then Some True
      else None)"

definition sql_where :: "('r \<Rightarrow> bool option) \<Rightarrow> 'r list \<Rightarrow> 'r list" where
  "sql_where cond tbl = filter (\<lambda>r. cond r = Some True) tbl"

text \<open>
  \<^verbatim>\<open>EXTRACT(EPOCH FROM (tpep_dropoff_datetime - tpep_pickup_datetime))\<close>: the length of
  the trip in seconds.
\<close>

definition duration_seconds :: "trip \<Rightarrow> rat option" where
  "duration_seconds r =
     (case (tpep_dropoff_datetime r, tpep_pickup_datetime r) of
        (Some d, Some p) \<Rightarrow> Some (of_int (d - p) / 1000000)
      | _ \<Rightarrow> None)"

text \<open>The \<^verbatim>\<open>WHERE\<close> clause of lines 279-281.\<close>

definition busy_days_filter :: "trip \<Rightarrow> bool option" where
  "busy_days_filter r =
     sql_and (sql_and (sql_gt (tpep_dropoff_datetime r) (tpep_pickup_datetime r))
                      (sql_gt (trip_distance r) (Some 0)))
             (sql_gt (duration_seconds r) (Some 60))"

text \<open>The divisor \<^verbatim>\<open>EXTRACT(EPOCH FROM ...)/3600\<close> and the speed of one row (lines 275-276).\<close>

definition duration_hours :: "trip \<Rightarrow> error + rat option" where
  "duration_hours r = sql_div (duration_seconds r) (Some 3600)"

definition speed_mph :: "trip \<Rightarrow> error + rat option" where
  "speed_mph r = bind (duration_hours r) (\<lambda>h. sql_div (trip_distance r) h)"

definition avg_speed_mph :: "trip list \<Rightarrow> error + rat option" where
  "avg_speed_mph rows = bind (collect (map speed_mph rows)) (\<lambda>vs. Inr (sql_avg vs))"

text \<open>The \<^verbatim>\<open>CASE day_name ... END\<close> of the \<^verbatim>\<open>ORDER BY\<close> clauses; no \<^verbatim>\<open>ELSE\<close>, so NULL otherwise.\<close>

definition day_order :: "string option \<Rightarrow> int option" where
  "day_order d =
     (if d = Some ''Monday'' then Some 1
      else if d = Some ''Tuesday'' then Some 2
      else if d = Some ''Wednesday'' then Some 3
      else if d = Some ''Thursday'' then Some 4
      else if d = Some ''Friday'' then Some 5
      else if d = Some ''Saturday'' then Some 6
      else if d = Some ''Sunday'' then Some 7
      else None)"

record day_row =
  d_day_name :: "string option"
  d_trip_count :: nat
  d_avg_distance :: "rat option"
  d_avg_fare :: "rat option"
  d_avg_tip :: "rat option"
  d_avg_speed_mph :: "rat option"

definition day_key :: "trip \<Rightarrow> string option" where
  "day_key r = dayname (tpep_pickup_datetime r)"

definition day_group :: "table \<Rightarrow> string option \<Rightarrow> error + day_row" where
  "day_group tbl k =
     (let rows = group_rows day_key tbl k in
      bind (avg_speed_mph rows) (\<lambda>speed.
        Inr \<lparr>d_day_name = k,
             d_trip_count = length rows,
             d_avg_distance = sql_avg (map trip_distance rows),
             d_avg_fare = sql_avg (map fare_amount rows),
             d_avg_tip = sql_avg (map tip_amount rows),
             d_avg_speed_mph = speed\<rparr>))"

text \<open>The first query of \<^verbatim>\<open>analyze_busy_days_and_times\<close> (lines 268-293).\<close>

definition busy_days_query :: "table \<Rightarrow> error + day_row list" where
  "busy_days_query tbl =
     (let kept = sql_where busy_days_filter tbl in
      bind (collect (map (day_group kept) (group_keys day_key kept))) (\<lambda>rows.
        Inr (sort_key (\<lambda>g. nulls_last (day_order (d_day_name g))) rows)))"

text \<open>
  The second query (lines 296-314), over the whole table:
  \<^verbatim>\<open>GROUP BY day_name, hour_of_day\<close>, ordered by the day and then the hour. A result row
  is (day_name, hour_of_day, trip_count).
\<close>

definition day_hour_key :: "trip \<Rightarrow> string option \<times> int option" where
  "day_hour_key r = (dayname (tpep_pickup_datetime r), extract_hour (tpep_pickup_datetime r))"

definition hour_by_day_query :: "table \<Rightarrow> (string option \<times> int option \<times> nat) list" where
  "hour_by_day_query tbl =
     sort_key (\<lambda>(d, h, c). (nulls_last (day_order d), nulls_last h))
       (map (\<lambda>k. (fst k, snd k, length (group_rows day_hour_key tbl k)))
            (group_keys day_hour_key tbl))"







section \<open>The window functions of the larger-than-memory test\<close>

text \<open>
  The common table expression \<^verbatim>\<open>trip_ranks\<close> of \<^verbatim>\<open>test_large_memory_processing\<close>
  (lines 381-403) adds three window columns to every row. Each is modelled as the list
  of (row id, value), the row id being the position of the row in the scan.

  \<^verbatim>\<open>ORDER BY key\<close> over the whole table: the row ids in ascending key order. The sort is
  stable, so rows with equal keys stay in scan order (the engine promises no order among
  them; the model fixes this one).
\<close>

definition order_by :: "('r \<Rightarrow> 'k::linorder) \<Rightarrow> 'r list \<Rightarrow> nat list" where
  "order_by key tbl = sort_key (\<lambda>i. key (tbl ! i)) [0..<length tbl]"

subsection \<open>RANK\<close>

text \<open>
  \<^verbatim>\<open>ORDER BY fare_amount DESC\<close>: \<open>a\<close> comes strictly before \<open>b\<close> (and is not its peer) when it
  is greater, NULLs last.
\<close>

definition desc_precedes :: "rat option \<Rightarrow> rat option \<Rightarrow> bool" where
  "desc_precedes a b =
     (case (a, b) of
        (Some x, Some y) \<Rightarrow> y < x
      | (Some x, None) \<Rightarrow> True
      | _ \<Rightarrow> False)"

text \<open>
  \<^verbatim>\<open>RANK() OVER (PARTITION BY part ORDER BY ...)\<close>: one plus the number of rows of the
  row's partition that come strictly before it in the ordering. NULL partition keys
  form one partition.
\<close>

definition rank_over :: "('r \<Rightarrow> 'k) \<Rightarrow> ('r \<Rightarrow> 'r \<Rightarrow> bool) \<Rightarrow> 'r list \<Rightarrow> nat \<Rightarrow> nat" where
  "rank_over part precedes tbl i =
     1 + length (filter (\<lambda>r'. part r' = part (tbl ! i) \<and> precedes r' (tbl ! i)) tbl)"

definition day_of_month :: "trip \<Rightarrow> int option" where
  "day_of_month r = extract_day (tpep_pickup_datetime r)"

text \<open>Lines 391-394: the rank of row \<open>i\<close>, and the column \<^verbatim>\<open>day_fare_rank\<close>.\<close>

definition fare_rank :: "table \<Rightarrow> nat \<Rightarrow> nat" where
  "fare_rank tbl i =
     rank_over day_of_month (\<lambda>a b. desc_precedes (fare_amount a) (fare_amount b)) tbl i"

definition day_fare_rank :: "table \<Rightarrow> (nat \<times> nat) list" where
  "day_fare_rank tbl = map (\<lambda>i. (i, fare_rank tbl i)) [0..<length tbl]"

subsection \<open>Moving average\<close>

text \<open>
  The frame \<^verbatim>\<open>ROWS BETWEEN a PRECEDING AND b FOLLOWING\<close> of the row at position \<open>p\<close> of the
  ordered rows: it starts \<open>a\<close> rows before \<open>p\<close>, or at the first row, and ends \<open>b\<close> rows
  after \<open>p\<close>, or at the last row (\<open>p - a\<close> on \<open>nat\<close> stops at 0, \<open>take\<close> stops at the end).
\<close>

definition rows_between :: "nat \<Rightarrow> nat \<Rightarrow> nat \<Rightarrow> 'a list \<Rightarrow> 'a list" where
  "rows_between a b p xs = take (p + b + 1 - (p - a)) (drop (p - a) xs)"

definition moving_average ::
  "nat \<Rightarrow> (trip \<Rightarrow> 'k::linorder) \<Rightarrow> (trip \<Rightarrow> rat option) \<Rightarrow> table \<Rightarrow> (nat \<times> rat option) list" where
  "moving_average radius key val tbl =
     (let ord = order_by key tbl;
          vals = map (\<lambda>i. val (tbl ! i)) ord
      in map (\<lambda>p. (ord ! p, sql_avg (rows_between radius radius p vals))) [0..<length ord])"

text \<open>Lines 396-399.\<close>

definition moving_avg_fare :: "table \<Rightarrow> (nat \<times> rat option) list" where
  "moving_avg_fare tbl =
     moving_average 10000 (\<lambda>r. nulls_last (tpep_pickup_datetime r)) fare_amount tbl"

subsection \<open>NTILE\<close>

text \<open>
  \<^verbatim>\<open>NTILE(T)\<close> over \<open>N\<close> ordered rows: with \<open>q = N div T\<close> and \<open>m = N mod T\<close>, the first
  \<open>m\<close> buckets take \<open>q + 1\<close> rows each and the others \<open>q\<close> rows each. The bucket of the row
  at position \<open>p\<close> (from 0):
\<close>

definition ntile_bucket :: "nat \<Rightarrow> nat \<Rightarrow> nat \<Rightarrow> nat" where
  "ntile_bucket T N p =
     (let q = N div T; m = N mod T; big = m * (q + 1)
      in if p < big then 1 + p div (q + 1) else 1 + m + (p - big) div q)"

definition percentile_tile :: "nat \<Rightarrow> (trip \<Rightarrow> 'k::linorder) \<Rightarrow> table \<Rightarrow> (nat \<times> nat) list" where
  "percentile_tile T key tbl =
     (let ord = order_by key tbl
      in map (\<lambda>p. (ord ! p, ntile_bucket T (length ord) p)) [0..<length ord])"

text \<open>Line 401: \<^verbatim>\<open>NTILE(100) OVER (ORDER BY trip_distance)\<close>, the tile count kept as a parameter.\<close>

definition distance_tiles :: "nat \<Rightarrow> table \<Rightarrow> (nat \<times> nat) list" where
  "distance_tiles T tbl = percentile_tile T (\<lambda>r. nulls_last (trip_distance r)) tbl"

definition distance_percentile :: "table \<Rightarrow> (nat \<times> nat) list" where
  "distance_percentile tbl = distance_tiles 100 tbl"

text \<open>The number of rows that a tile assignment puts in bucket \<open>b\<close>.\<close>

definition tile_count :: "nat \<Rightarrow> (nat \<times> nat) list \<Rightarrow> nat" where
  "tile_count b tiles = length (filter (\<lambda>(i, t). t = b) tiles)"

section \<open>Loading the table\<close>

text \<open>
  \<^verbatim>\<open>load_csv_to_duckdb\<close> (lines 10-45). The files are a function from a path to the table
  that \<^verbatim>\<open>read_csv_auto\<close> makes of it, or \<open>None\<close> when the file cannot be opened or
  processed. Each statement is committed when it returns:
  \<^verbatim>\<open>DROP TABLE IF EXISTS yellow_taxi\<close> first, then \<^verbatim>\<open>CREATE TABLE yellow_taxi AS SELECT ...\<close>,
  which creates the whole table or raises and creates nothing, then the count. The
  function returns (success, row_count) and the connection's new state; the duration is
  left out.
\<close>

type_synonym files = "string \<Rightarrow> table option"

definition drop_table_if_exists :: "db \<Rightarrow> db" where
  "drop_table_if_exists con = con\<lparr>yellow_taxi := None\<rparr>"

definition create_table_as_read_csv :: "files \<Rightarrow> string \<Rightarrow> db \<Rightarrow> error + db" where
  "create_table_as_read_csv fs csv_file con =
     (case fs csv_file of
        None \<Rightarrow> Inl IOError
      | Some tbl \<Rightarrow> (case yellow_taxi con of
                      Some _ \<Rightarrow> Inl CatalogError
                    | None \<Rightarrow> Inr (con\<lparr>yellow_taxi := Some tbl\<rparr>)))"

definition count_rows :: "db \<Rightarrow> error + nat" where
  "count_rows con = with_table con (\<lambda>tbl. Inr (length tbl))"

definition load_csv_to_duckdb :: "files \<Rightarrow> string \<Rightarrow> db \<Rightarrow> (bool \<times> nat) \<times> db" where
  "load_csv_to_duckdb fs csv_file con =
     (let con1 = drop_table_if_exists con in
      case create_table_as_read_csv fs csv_file con1 of
        Inl e \<Rightarrow> ((False, 0), con1)
      | Inr con2 \<Rightarrow> (case count_rows con2 of
                      Inl e \<Rightarrow> ((False, 0), con2)
                    | Inr row_count \<Rightarrow> ((True, row_count), con2)))"

section \<open>The analytics block of main\<close>



section \<open>Concrete rows for the worked examples\<close>

text \<open>
  A row whose pickup is on day \<open>d\<close> of March 2016 at \<open>h\<close>:05:00, with a ten-minute trip,
  and the given distance, fare, tip and payment type.
\<close>

definition example_trip :: "int \<Rightarrow> int \<Rightarrow> rat option \<Rightarrow> rat option \<Rightarrow> rat option \<Rightarrow> int option \<Rightarrow> trip" where
  "example_trip d h distance fare tip ptype =
     \<lparr>tpep_pickup_datetime = Some (mk_timestamp 2016 3 d h 5 0),
      tpep_dropoff_datetime = Some (mk_timestamp 2016 3 d h 15 0),
      trip_distance = distance,
      fare_amount = fare,
      tip_amount = tip,
      payment_type = ptype\<rparr>"

definition null_pickup_trip :: "rat option \<Rightarrow> rat option \<Rightarrow> rat option \<Rightarrow> int option \<Rightarrow> trip" where
  "null_pickup_trip distance fare tip ptype =
     \<lparr>tpep_pickup_datetime = None,
      tpep_dropoff_datetime = None,
      trip_distance = distance,
      fare_amount = fare,
      tip_amount = tip,
      payment_type = ptype\<rparr>"

text \<open>
  Two trips in the same hour and with the same payment type, the first with fare 0 and
  tip 5, the second with fare 10 and tip 2; and a trip with no pickup time.
\<close>

definition zero_fare_table :: table where
  "zero_fare_table =
     [example_trip 1 0 (Some 2) (Some 0) (Some 5) (Some 1),
      example_trip 1 0 (Some 3) (Some 10) (Some 2) (Some 1),
      null_pickup_trip (Some 1) (Some 30) (Some 6) None]"





text \<open>No file can be opened.\<close>

definition no_files :: files where
  "no_files = (\<lambda>path. None)"

text \<open>
  Five trips on one day, given out of pickup order; in pickup order their fares are
  10, 20, 30, 40, 50.
\<close>

definition five_fares_table :: table where
  "five_fares_table =
     [example_trip 1 3 (Some 1) (Some 40) (Some 1) (Some 1),
      example_trip 1 0 (Some 1) (Some 10) (Some 1) (Some 1),
      example_trip 1 4 (Some 1) (Some 50) (Some 1) (Some 1),
      example_trip 1 1 (Some 1) (Some 20) (Some 1) (Some 1),
      example_trip 1 2 (Some 1) (Some 30) (Some 1) (Some 1)]"

text \<open>Three trips on day 1, two of them with the same fare, and one trip on day 2.\<close>

definition tied_fares_table :: table where
  "tied_fares_table =
     [example_trip 1 3 (Some 1) (Some 20) (Some 1) (Some 1),
      example_trip 1 5 (Some 1) (Some 20) (Some 1) (Some 1),
      example_trip 1 4 (Some 1) (Some 10) (Some 1) (Some 1),
      example_trip 2 4 (Some 1) (Some 5) (Some 1) (Some 1)]"

text \<open>150 trips, the distance of trip \<open>n\<close> being \<open>n\<close>.\<close>

definition many_trips_table :: table where
  "many_trips_table =
     map (\<lambda>n. example_trip 1 0 (Some (of_nat n)) (Some 10) (Some 1) (Some 1)) [0..<150]"

section \<open>Verification: helper lemmas\<close>

lemma bind_Inr [simp]: "bind (Inr v) f = f v"
  by (simp add: bind_def)

lemma bind_Inl [simp]: "bind (Inl e) f = Inl e"
  by (simp add: bind_def)

lemma collect_map_Inr: "collect (map (\<lambda>x. Inr (f x)) xs) = Inr (map f xs)"
  by (induction xs) simp_all

lemma non_nulls_Cons:
  "non_nulls (v # vs) = (case v of None \<Rightarrow> non_nulls vs | Some x \<Rightarrow> x # non_nulls vs)"
  by (cases v) simp_all

lemma non_nulls_filter:
  "(\<And>x. x \<in> set xs \<Longrightarrow> \<not> P x \<Longrightarrow> g x = None) \<Longrightarrow>
   non_nulls (map g (filter P xs)) = non_nulls (map g xs)"
  by (induction xs) (auto simp: non_nulls_Cons split: option.splits)

lemma sql_avg_filter:
  "(\<And>x. x \<in> set xs \<Longrightarrow> \<not> P x \<Longrightarrow> g x = None) \<Longrightarrow>
   sql_avg (map g (filter P xs)) = sql_avg (map g xs)"
  by (simp add: sql_avg_def non_nulls_filter)

subsection \<open>The guarded ratio never divides by zero\<close>

lemma tip_ratio_total:
  "tip_ratio r =
     Inr (case (tip_amount r, fare_amount r) of
            (Some t, Some f) \<Rightarrow> if f = 0 then None else Some (t / f)
          | _ \<Rightarrow> None)"
  by (simp add: tip_ratio_def sql_div_def nullif_def split: option.splits)

lemma avg_tip_percentage_total:
  "avg_tip_percentage rows =
     Inr (map_option (\<lambda>a. a * 100)
            (sql_avg (map (\<lambda>r. case (tip_amount r, fare_amount r) of
                                 (Some t, Some f) \<Rightarrow> if f = 0 then None else Some (t / f)
                               | _ \<Rightarrow> None) rows)))"
  unfolding avg_tip_percentage_def tip_ratio_total collect_map_Inr by simp

lemma avg_tip_percentage_excludes:
  "avg_tip_percentage rows =
     Inr (map_option (\<lambda>a. a * 100)
            (sql_avg (map (\<lambda>r. case (tip_amount r, fare_amount r) of
                                 (Some t, Some f) \<Rightarrow> Some (t / f)
                               | _ \<Rightarrow> None)
                        (filter (\<lambda>r. fare_amount r \<noteq> Some 0) rows))))"
proof -
  let ?g = "\<lambda>r. case (tip_amount r, fare_amount r) of
                   (Some t, Some f) \<Rightarrow> if f = 0 then None else Some (t / f)
                 | _ \<Rightarrow> None"
  let ?h = "\<lambda>r. case (tip_amount r, fare_amount r) of
                   (Some t, Some f) \<Rightarrow> Some (t / f)
                 | _ \<Rightarrow> None"
  let ?P = "\<lambda>r. fare_amount r \<noteq> Some 0"
  have "map ?h (filter ?P rows) = map ?g (filter ?P rows)"
    by (rule map_cong) (auto split: option.splits)
  moreover have "sql_avg (map ?g (filter ?P rows)) = sql_avg (map ?g rows)"
    by (rule sql_avg_filter) (auto split: option.splits)
  ultimately have "sql_avg (map ?h (filter ?P rows)) = sql_avg (map ?g rows)"
    by (simp only:)
  then show ?thesis
    by (simp only: avg_tip_percentage_total)
qed

lemma hour_group_total:
  "hour_group tbl k =
     Inr \<lparr>h_hour_of_day = k,
          h_trip_count = length (group_rows hour_key tbl k),
          h_avg_distance = sql_avg (map trip_distance (group_rows hour_key tbl k)),
          h_avg_fare = sql_avg (map fare_amount (group_rows hour_key tbl k)),
          h_avg_tip = sql_avg (map tip_amount (group_rows hour_key tbl k)),
          h_avg_tip_percentage =
            map_option (\<lambda>a. a * 100)
              (sql_avg (map (\<lambda>r. case (tip_amount r, fare_amount r) of
                                   (Some t, Some f) \<Rightarrow> Some (t / f)
                                 | _ \<Rightarrow> None)
                          (filter (\<lambda>r. fare_amount r \<noteq> Some 0) (group_rows hour_key tbl k))))\<rparr>"
  by (simp add: hour_group_def avg_tip_percentage_excludes Let_def)

lemma payment_group_total:
  "payment_group tbl k =
     Inr \<lparr>p_payment_type = fst k,
          p_payment_desc = snd k,
          p_trip_count = length (group_rows payment_key tbl k),
          p_avg_fare = sql_avg (map fare_amount (group_rows payment_key tbl k)),
          p_avg_tip = sql_avg (map tip_amount (group_rows payment_key tbl k)),
          p_total_tips = sql_sum (map tip_amount (group_rows payment_key tbl k)),
          p_avg_tip_percentage =
            map_option (\<lambda>a. a * 100)
              (sql_avg (map (\<lambda>r. case (tip_amount r, fare_amount r) of
                                   (Some t, Some f) \<Rightarrow> Some (t / f)
                                 | _ \<Rightarrow> None)
                          (filter (\<lambda>r. fare_amount r \<noteq> Some 0) (group_rows payment_key tbl k))))\<rparr>"
  by (simp add: payment_group_def avg_tip_percentage_excludes Let_def)

text \<open>Both queries as plain lists of rows: no group raises.\<close>

lemma trips_by_hour_query_total:
  "trips_by_hour_query tbl =
     Inr (sort_key (\<lambda>g. nulls_last (h_hour_of_day g))
            (map (\<lambda>k. \<lparr>h_hour_of_day = k,
                       h_trip_count = length (group_rows hour_key tbl k),
                       h_avg_distance = sql_avg (map trip_distance (group_rows hour_key tbl k)),
                       h_avg_fare = sql_avg (map fare_amount (group_rows hour_key tbl k)),
                       h_avg_tip = sql_avg (map tip_amount (group_rows hour_key tbl k)),
                       h_avg_tip_percentage =
                         map_option (\<lambda>a. a * 100)
                           (sql_avg (map (\<lambda>r. case (tip_amount r, fare_amount r) of
                                                (Some t, Some f) \<Rightarrow> Some (t / f)
                                              | _ \<Rightarrow> None)
                                       (filter (\<lambda>r. fare_amount r \<noteq> Some 0)
                                          (group_rows hour_key tbl k))))\<rparr>)
               (group_keys hour_key tbl)))"
  unfolding trips_by_hour_query_def hour_group_total collect_map_Inr by simp

lemma payment_query_total:
  "payment_query tbl =
     Inr (sort_key (\<lambda>g. - int (p_trip_count g))
            (map (\<lambda>k. \<lparr>p_payment_type = fst k,
                       p_payment_desc = snd k,
                       p_trip_count = length (group_rows payment_key tbl k),
                       p_avg_fare = sql_avg (map fare_amount (group_rows payment_key tbl k)),
                       p_avg_tip = sql_avg (map tip_amount (group_rows payment_key tbl k)),
                       p_total_tips = sql_sum (map tip_amount (group_rows payment_key tbl k)),
                       p_avg_tip_percentage =
                         map_option (\<lambda>a. a * 100)
                           (sql_avg (map (\<lambda>r. case (tip_amount r, fare_amount r) of
                                                (Some t, Some f) \<Rightarrow> Some (t / f)
                                              | _ \<Rightarrow> None)
                                       (filter (\<lambda>r. fare_amount r \<noteq> Some 0)
                                          (group_rows payment_key tbl k))))\<rparr>)
               (group_keys payment_key tbl)))"
  unfolding payment_query_def payment_group_total collect_map_Inr by simp

section \<open>The end-to-end scenario (C3)\<close>

lemma example_trip_simps [simp]:
  "tpep_pickup_datetime (example_trip d h di f t p) = Some (mk_timestamp 2016 3 d h 5 0)"
  "tpep_dropoff_datetime (example_trip d h di f t p) = Some (mk_timestamp 2016 3 d h 15 0)"
  "trip_distance (example_trip d h di f t p) = di"
  "fare_amount (example_trip d h di f t p) = f"
  "tip_amount (example_trip d h di f t p) = t"
  "payment_type (example_trip d h di f t p) = p"
  by (simp_all add: example_trip_def)

text \<open>
  C3. For any three rows whose pickup hours are 0, 0 and 13 and whose fares are 10, 20
  and 30, the query of \<^verbatim>\<open>analyze_trips_by_hour\<close> raises nothing and returns exactly two
  rows, in this order: hour 0 with count 2 and average fare 15, and hour 13 with count 1
  and average fare 30.
\<close>

theorem three_row_scenario:
  assumes "hour_key r1 = Some 0" and "hour_key r2 = Some 0" and "hour_key r3 = Some 13"
    and "fare_amount r1 = Some 10" and "fare_amount r2 = Some 20" and "fare_amount r3 = Some 30"
  shows "\<exists>rows. trips_by_hour_query [r1, r2, r3] = Inr rows \<and>
           map (\<lambda>g. (h_hour_of_day g, h_trip_count g, h_avg_fare g)) rows =
             [(Some 0, 2, Some 15), (Some 13, 1, Some 30)]"
proof -
  have keys: "group_keys hour_key [r1, r2, r3] = [Some 0, Some 13]"
    using assms by (simp add: group_keys_def)
  have g0: "group_rows hour_key [r1, r2, r3] (Some 0) = [r1, r2]"
    using assms by (simp add: group_rows_def)
  have g13: "group_rows hour_key [r1, r2, r3] (Some 13) = [r3]"
    using assms by (simp add: group_rows_def)
  show ?thesis
    unfolding trips_by_hour_query_total keys
    using assms by (simp add: g0 g13 sql_avg_def nulls_last_def)
qed

theorem three_row_scenario_witness:
  "\<exists>rows. trips_by_hour_query
            [example_trip 1 0 (Some 2) (Some 10) (Some 1) (Some 1),
             example_trip 1 0 (Some 3) (Some 20) (Some 0) (Some 2),
             example_trip 1 13 (Some 1) (Some 30) (Some 6) (Some 1)] = Inr rows \<and>
          map (\<lambda>g. (h_hour_of_day g, h_trip_count g, h_avg_fare g)) rows =
            [(Some 0, 2, Some 15), (Some 13, 1, Some 30)]"
  by (rule three_row_scenario)
     (simp_all add: hour_key_def extract_hour_def mk_timestamp_def days_from_civil_def)

section \<open>The ratio guard (C1)\<close>

lemma zero_fare_hour_rows:
  "trips_by_hour_query zero_fare_table =
     Inr [\<lparr>h_hour_of_day = Some 0, h_trip_count = 2, h_avg_distance = Some (5 / 2),
           h_avg_fare = Some 5, h_avg_tip = Some (7 / 2), h_avg_tip_percentage = Some 20\<rparr>,
          \<lparr>h_hour_of_day = None, h_trip_count = 1, h_avg_distance = Some 1,
           h_avg_fare = Some 30, h_avg_tip = Some 6, h_avg_tip_percentage = Some 20\<rparr>]"
  by code_simp

lemma zero_fare_payment_rows:
  "payment_query zero_fare_table =
     Inr [\<lparr>p_payment_type = Some 1, p_payment_desc = ''Credit card'',
         p_trip_count = 2, p_avg_fare = Some 5, p_avg_tip = Some (7 / 2),
         p_total_tips = Some 7, p_avg_tip_percentage = Some 20\<rparr>,
      \<lparr>p_payment_type = None, p_payment_desc = ''Other'', p_trip_count = 1,
         p_avg_fare = Some 30, p_avg_tip = Some 6, p_total_tips = Some 6,
         p_avg_tip_percentage = Some 20\<rparr>]"
  by code_simp

lemma zero_fare_hour_by_day_rows:
  "hour_by_day_query zero_fare_table = [(Some ''Tuesday'', Some 0, 2), (None, None, 1)]"
  by code_simp

text \<open>
  C1. In both queries that compute the average tip percentage (\<^verbatim>\<open>analyze_trips_by_hour\<close>
  and \<^verbatim>\<open>analyze_payment_methods\<close>), a row whose fare is zero has a NULL ratio, no query
  raises, every group's count is the number of all its rows (zero-fare rows included)
  and its percentage is 100 times the average of tip/fare over the rows of the group
  whose fare is not zero.
\<close>

theorem ratio_guard:
  "(\<forall>r. fare_amount r = Some 0 \<longrightarrow> tip_ratio r = Inr None) \<and>
   (\<exists>rows. trips_by_hour_query tbl = Inr rows \<and>
      (\<forall>g\<in>set rows.
         h_trip_count g = length (group_rows hour_key tbl (h_hour_of_day g)) \<and>
         h_avg_tip_percentage g =
           map_option (\<lambda>a. a * 100)
             (sql_avg (map (\<lambda>r. case (tip_amount r, fare_amount r) of
                                  (Some t, Some f) \<Rightarrow> Some (t / f)
                                | _ \<Rightarrow> None)
                         (filter (\<lambda>r. fare_amount r \<noteq> Some 0)
                            (group_rows hour_key tbl (h_hour_of_day g))))))) \<and>
   (\<exists>rows. payment_query tbl = Inr rows \<and>
      (\<forall>g\<in>set rows.
         p_trip_count g = length (group_rows payment_key tbl (p_payment_type g, p_payment_desc g)) \<and>
         p_avg_tip_percentage g =
           map_option (\<lambda>a. a * 100)
             (sql_avg (map (\<lambda>r. case (tip_amount r, fare_amount r) of
                                  (Some t, Some f) \<Rightarrow> Some (t / f)
                                | _ \<Rightarrow> None)
                         (filter (\<lambda>r. fare_amount r \<noteq> Some 0)
                            (group_rows payment_key tbl (p_payment_type g, p_payment_desc g)))))))"
proof (intro conjI)
  show "\<forall>r. fare_amount r = Some 0 \<longrightarrow> tip_ratio r = Inr None"
    by (simp add: tip_ratio_total split: option.splits)
  show "\<exists>rows. trips_by_hour_query tbl = Inr rows \<and>
      (\<forall>g\<in>set rows.
         h_trip_count g = length (group_rows hour_key tbl (h_hour_of_day g)) \<and>
         h_avg_tip_percentage g =
           map_option (\<lambda>a. a * 100)
             (sql_avg (map (\<lambda>r. case (tip_amount r, fare_amount r) of
                                  (Some t, Some f) \<Rightarrow> Some (t / f)
                                | _ \<Rightarrow> None)
                         (filter (\<lambda>r. fare_amount r \<noteq> Some 0)
                            (group_rows hour_key tbl (h_hour_of_day g))))))"
    unfolding trips_by_hour_query_total by auto
  show "\<exists>rows. payment_query tbl = Inr rows \<and>
      (\<forall>g\<in>set rows.
         p_trip_count g = length (group_rows payment_key tbl (p_payment_type g, p_payment_desc g)) \<and>
         p_avg_tip_percentage g =
           map_option (\<lambda>a. a * 100)
             (sql_avg (map (\<lambda>r. case (tip_amount r, fare_amount r) of
                                  (Some t, Some f) \<Rightarrow> Some (t / f)
                                | _ \<Rightarrow> None)
                         (filter (\<lambda>r. fare_amount r \<noteq> Some 0)
                            (group_rows payment_key tbl (p_payment_type g, p_payment_desc g))))))"
    unfolding payment_query_total by auto
qed

theorem ratio_guard_witness:
  "fare_amount (hd zero_fare_table) = Some 0 \<and>
   tip_ratio (hd zero_fare_table) = Inr None \<and>
   (\<exists>rows g. trips_by_hour_query zero_fare_table = Inr rows \<and> g \<in> set rows \<and>
      h_hour_of_day g = Some 0 \<and> h_trip_count g = 2 \<and> h_avg_tip_percentage g = Some 20 \<and>
      h_trip_count g = length (group_rows hour_key zero_fare_table (h_hour_of_day g))) \<and>
   (\<exists>rows g. payment_query zero_fare_table = Inr rows \<and> g \<in> set rows \<and>
      p_payment_type g = Some 1 \<and> p_trip_count g = 2 \<and> p_avg_tip_percentage g = Some 20 \<and>
      p_trip_count g = length (group_rows payment_key zero_fare_table (p_payment_type g, p_payment_desc g)))"
proof -
  have f: "fare_amount (hd zero_fare_table) = Some 0"
    by (simp add: zero_fare_table_def)
  note g = ratio_guard [of zero_fare_table]
  from g f have "tip_ratio (hd zero_fare_table) = Inr None" by blast
  moreover from g have "\<exists>rows g. trips_by_hour_query zero_fare_table = Inr rows \<and> g \<in> set rows \<and>
      h_hour_of_day g = Some 0 \<and> h_trip_count g = 2 \<and> h_avg_tip_percentage g = Some 20 \<and>
      h_trip_count g = length (group_rows hour_key zero_fare_table (h_hour_of_day g))"
    unfolding zero_fare_hour_rows by fastforce
  moreover from g have "\<exists>rows g. payment_query zero_fare_table = Inr rows \<and> g \<in> set rows \<and>
      p_payment_type g = Some 1 \<and> p_trip_count g = 2 \<and> p_avg_tip_percentage g = Some 20 \<and>
      p_trip_count g = length (group_rows payment_key zero_fare_table (p_payment_type g, p_payment_desc g))"
    unfolding zero_fare_payment_rows by fastforce
  ultimately show ?thesis using f by blast
qed

section \<open>Aggregation completeness (C4)\<close>

lemma group_keys_set [simp]: "set (group_keys key tbl) = key ` set tbl"
  by (simp add: group_keys_def)

lemma group_keys_distinct [simp]: "distinct (group_keys key tbl)"
  by (simp add: group_keys_def)

lemma sum_filter_counts:
  "finite A \<Longrightarrow> key ` set xs \<subseteq> A \<Longrightarrow> (\<Sum>k\<in>A. length (filter (\<lambda>r. key r = k) xs)) = length xs"
proof (induction xs)
  case Nil
  then show ?case by simp
next
  case (Cons x xs)
  have "(\<Sum>k\<in>A. length (filter (\<lambda>r. key r = k) (x # xs))) =
        (\<Sum>k\<in>A. (if key x = k then 1 else 0) + length (filter (\<lambda>r. key r = k) xs))"
    by (rule sum.cong) auto
  also have "\<dots> = (\<Sum>k\<in>A. (if key x = k then 1 else 0)) + (\<Sum>k\<in>A. length (filter (\<lambda>r. key r = k) xs))"
    by (simp add: sum.distrib)
  also have "(\<Sum>k\<in>A. (if key x = k then 1 else 0 :: nat)) = 1"
    using Cons.prems by (simp add: sum.delta)
  finally show ?case using Cons by simp
qed

lemma sum_group_counts:
  "sum_list (map (\<lambda>k. length (group_rows key tbl k)) (group_keys key tbl)) = length tbl"
proof -
  have "sum_list (map (\<lambda>k. length (group_rows key tbl k)) (group_keys key tbl)) =
        (\<Sum>k\<in>set (group_keys key tbl). length (group_rows key tbl k))"
    by (rule sum_list_distinct_conv_sum_set) simp
  also have "\<dots> = length tbl"
    unfolding group_rows_def by (rule sum_filter_counts) simp_all
  finally show ?thesis .
qed

lemma sum_list_insort_key:
  "sum_list (map g (insort_key f x xs)) = g x + sum_list (map (g :: 'a \<Rightarrow> nat) xs)"
  by (induction xs) simp_all

lemma sum_list_sort_key:
  "sum_list (map g (sort_key f xs)) = sum_list (map (g :: 'a \<Rightarrow> nat) xs)"
  by (induction xs) (simp_all add: sum_list_insort_key)

lemma distinct_map_sort_key:
  "distinct (map g (sort_key f xs)) = distinct (map g xs)"
  by (simp add: distinct_map)

text \<open>
  C4. For each of the three group-by queries over the whole table (by hour, by payment
  type, by day and hour), the counts of the groups add up to the number of rows of the
  table, the group keys are pairwise distinct, and the count of a group is the number
  of rows with its key. Rows with a NULL key are the rows of the group with the NULL
  key.
\<close>

theorem counts_total:
  "(\<exists>rows. trips_by_hour_query tbl = Inr rows \<and>
      sum_list (map h_trip_count rows) = length tbl \<and>
      distinct (map h_hour_of_day rows) \<and>
      (\<forall>g\<in>set rows. h_trip_count g = length (filter (\<lambda>r. hour_key r = h_hour_of_day g) tbl))) \<and>
   (\<exists>rows. payment_query tbl = Inr rows \<and>
      sum_list (map p_trip_count rows) = length tbl \<and>
      distinct (map (\<lambda>g. (p_payment_type g, p_payment_desc g)) rows) \<and>
      (\<forall>g\<in>set rows. p_trip_count g =
          length (filter (\<lambda>r. payment_key r = (p_payment_type g, p_payment_desc g)) tbl))) \<and>
   sum_list (map (\<lambda>(d, h, c). c) (hour_by_day_query tbl)) = length tbl \<and>
   distinct (map (\<lambda>(d, h, c). (d, h)) (hour_by_day_query tbl)) \<and>
   (\<forall>(d, h, c)\<in>set (hour_by_day_query tbl). c = length (filter (\<lambda>r. day_hour_key r = (d, h)) tbl))"
proof (intro conjI)
  show "\<exists>rows. trips_by_hour_query tbl = Inr rows \<and>
      sum_list (map h_trip_count rows) = length tbl \<and>
      distinct (map h_hour_of_day rows) \<and>
      (\<forall>g\<in>set rows. h_trip_count g = length (filter (\<lambda>r. hour_key r = h_hour_of_day g) tbl))"
    unfolding trips_by_hour_query_total
    by (auto simp: sum_list_sort_key distinct_map_sort_key comp_def
          sum_group_counts [unfolded group_rows_def] group_rows_def)
  show "\<exists>rows. payment_query tbl = Inr rows \<and>
      sum_list (map p_trip_count rows) = length tbl \<and>
      distinct (map (\<lambda>g. (p_payment_type g, p_payment_desc g)) rows) \<and>
      (\<forall>g\<in>set rows. p_trip_count g =
          length (filter (\<lambda>r. payment_key r = (p_payment_type g, p_payment_desc g)) tbl))"
    unfolding payment_query_total
    by (auto simp: sum_list_sort_key distinct_map_sort_key comp_def
          sum_group_counts [unfolded group_rows_def] group_rows_def)
  show "sum_list (map (\<lambda>(d, h, c). c) (hour_by_day_query tbl)) = length tbl"
    by (simp add: hour_by_day_query_def sum_list_sort_key comp_def sum_group_counts)
  show "distinct (map (\<lambda>(d, h, c). (d, h)) (hour_by_day_query tbl))"
    by (simp add: hour_by_day_query_def distinct_map_sort_key comp_def)
  show "\<forall>(d, h, c)\<in>set (hour_by_day_query tbl). c = length (filter (\<lambda>r. day_hour_key r = (d, h)) tbl)"
    by (auto simp: hour_by_day_query_def group_rows_def)
qed

theorem counts_total_witness:
  "(\<exists>rows. trips_by_hour_query zero_fare_table = Inr rows \<and>
      map (\<lambda>g. (h_hour_of_day g, h_trip_count g)) rows = [(Some 0, 2), (None, 1)] \<and>
      sum_list (map h_trip_count rows) = length zero_fare_table) \<and>
   (\<exists>rows. payment_query zero_fare_table = Inr rows \<and>
      map (\<lambda>g. (p_payment_type g, p_trip_count g)) rows = [(Some 1, 2), (None, 1)] \<and>
      sum_list (map p_trip_count rows) = length zero_fare_table) \<and>
   hour_by_day_query zero_fare_table = [(Some ''Tuesday'', Some 0, 2), (None, None, 1)] \<and>
   sum_list (map (\<lambda>(d, h, c). c) (hour_by_day_query zero_fare_table)) = length zero_fare_table"
  using counts_total [of zero_fare_table]
  unfolding zero_fare_hour_rows zero_fare_payment_rows zero_fare_hour_by_day_rows
  by simp

section \<open>The speed of the busy-days analysis (C10)\<close>

lemma sql_and_True: "sql_and a b = Some True \<longleftrightarrow> a = Some True \<and> b = Some True"
  by (auto simp: sql_and_def)

lemma sql_gt_True: "sql_gt a b = Some True \<longleftrightarrow> (\<exists>x y. a = Some x \<and> b = Some y \<and> y < x)"
  by (auto simp: sql_gt_def split: option.splits)

lemma collect_all_Inr:
  "(\<And>x. x \<in> set xs \<Longrightarrow> \<exists>v. f x = Inr v) \<Longrightarrow> \<exists>vs. collect (map f xs) = Inr vs"
proof (induction xs)
  case Nil
  then show ?case by simp
next
  case (Cons x xs)
  then obtain v where "f x = Inr v" by auto
  moreover from Cons obtain vs where "collect (map f xs) = Inr vs" by auto
  ultimately show ?case by simp
qed

lemma busy_row_speed:
  assumes "busy_days_filter r = Some True"
  shows "\<exists>s h d. duration_seconds r = Some s \<and> 60 < s \<and> duration_hours r = Inr (Some h) \<and> h = s / 3600 \<and> 0 < h \<and>
               trip_distance r = Some d \<and> speed_mph r = Inr (Some (d / h))"
proof -
  from assms obtain s d where s: "duration_seconds r = Some s" "60 < s"
    and d: "trip_distance r = Some d"
    by (auto simp: busy_days_filter_def sql_and_True sql_gt_True)
  have h: "duration_hours r = Inr (Some (s / 3600))"
    by (simp add: duration_hours_def sql_div_def s)
  have pos: "0 < s / 3600" using s by simp
  then have "speed_mph r = Inr (Some (d / (s / 3600)))"
    by (simp add: speed_mph_def h sql_div_def d)
  with s d h pos show ?thesis by blast
qed

text \<open>
  C10. Every row that passes the filter of the busy-days query has a trip length in
  hours that is not NULL and is strictly positive, so its speed is a quotient by a
  positive number; and the query as a whole never divides by zero.
\<close>

theorem speed_denominator_positive:
  "(\<forall>r. busy_days_filter r = Some True \<longrightarrow>
      (\<exists>h d. duration_hours r = Inr (Some h) \<and> 0 < h \<and>
             trip_distance r = Some d \<and> speed_mph r = Inr (Some (d / h)))) \<and>
   (\<exists>rows. busy_days_query tbl = Inr rows)"
proof
  show "\<forall>r. busy_days_filter r = Some True \<longrightarrow>
      (\<exists>h d. duration_hours r = Inr (Some h) \<and> 0 < h \<and>
             trip_distance r = Some d \<and> speed_mph r = Inr (Some (d / h)))"
    using busy_row_speed by blast
next
  let ?kept = "sql_where busy_days_filter tbl"
  have "\<exists>v. day_group ?kept k = Inr v" for k
  proof -
    have "\<exists>vs. collect (map speed_mph (group_rows day_key ?kept k)) = Inr vs"
    proof (rule collect_all_Inr)
      fix r assume "r \<in> set (group_rows day_key ?kept k)"
      then have "busy_days_filter r = Some True"
        by (simp add: group_rows_def sql_where_def)
      then show "\<exists>v. speed_mph r = Inr v" using busy_row_speed by blast
    qed
    then show ?thesis
      by (auto simp: day_group_def avg_speed_mph_def Let_def)
  qed
  then have "\<exists>vs. collect (map (day_group ?kept) (group_keys day_key ?kept)) = Inr vs"
    by (intro collect_all_Inr) blast
  then show "\<exists>rows. busy_days_query tbl = Inr rows"
    by (auto simp: busy_days_query_def Let_def)
qed

theorem speed_denominator_positive_witness:
  "busy_days_filter (example_trip 1 0 (Some 2) (Some 10) (Some 1) (Some 1)) = Some True \<and>
   duration_hours (example_trip 1 0 (Some 2) (Some 10) (Some 1) (Some 1)) = Inr (Some (1 / 6)) \<and>
   speed_mph (example_trip 1 0 (Some 2) (Some 10) (Some 1) (Some 1)) = Inr (Some 12)"
proof -
  have f: "busy_days_filter (example_trip 1 0 (Some 2) (Some 10) (Some 1) (Some 1)) = Some True"
    by (simp add: busy_days_filter_def sql_and_def sql_gt_def duration_seconds_def
          mk_timestamp_def days_from_civil_def)
  from speed_denominator_positive [of "[]"] f
  show ?thesis
    by (simp add: duration_hours_def speed_mph_def sql_div_def duration_seconds_def
          mk_timestamp_def days_from_civil_def)
qed

section \<open>A failed load (C8)\<close>

text \<open>
  C8, as stated, fails: a load that cannot open its source reports failure and a row
  count of 0, but the table that existed before the call has been dropped.
\<close>

theorem failed_load_drops_table_counterexample:
  "load_csv_to_duckdb no_files ''files/missing.csv'' \<lparr>yellow_taxi = Some zero_fare_table\<rparr> =
     ((False, 0), \<lparr>yellow_taxi = None\<rparr>) \<and>
   yellow_taxi (snd (load_csv_to_duckdb no_files ''files/missing.csv'' \<lparr>yellow_taxi = Some zero_fare_table\<rparr>))
     \<noteq> yellow_taxi \<lparr>yellow_taxi = Some zero_fare_table\<rparr>"
  by (simp add: load_csv_to_duckdb_def drop_table_if_exists_def create_table_as_read_csv_def no_files_def)

text \<open>
  C8, amended. The load fails exactly when the source cannot be opened or processed;
  it then returns (False, 0) and leaves the database without a \<^verbatim>\<open>yellow_taxi\<close> table
  (no partly loaded table, and the previous table dropped). Otherwise it returns True
  with the number of rows of the new table.
\<close>

theorem failed_load_state:
  "(fst (fst (load_csv_to_duckdb fs csv_file con)) = False \<longleftrightarrow> fs csv_file = None) \<and>
   (fs csv_file = None \<longrightarrow>
      load_csv_to_duckdb fs csv_file con = ((False, 0), con\<lparr>yellow_taxi := None\<rparr>)) \<and>
   (\<forall>tbl. fs csv_file = Some tbl \<longrightarrow>
      load_csv_to_duckdb fs csv_file con = ((True, length tbl), con\<lparr>yellow_taxi := Some tbl\<rparr>))"
  by (cases "fs csv_file")
     (simp_all add: load_csv_to_duckdb_def drop_table_if_exists_def
        create_table_as_read_csv_def count_rows_def with_table_def)

theorem failed_load_state_witness:
  "no_files ''files/missing.csv'' = None \<and>
   load_csv_to_duckdb no_files ''files/missing.csv'' \<lparr>yellow_taxi = Some zero_fare_table\<rparr> =
     ((False, 0), \<lparr>yellow_taxi = None\<rparr>) \<and>
   load_csv_to_duckdb (no_files(''files/a.csv'' := Some zero_fare_table)) ''files/a.csv'' \<lparr>yellow_taxi = None\<rparr> =
     ((True, 3), \<lparr>yellow_taxi = Some zero_fare_table\<rparr>)"
proof -
  have n: "no_files ''files/missing.csv'' = None" by (simp add: no_files_def)
  have s: "(no_files(''files/a.csv'' := Some zero_fare_table)) ''files/a.csv'' = Some zero_fare_table" by simp
  have l: "length zero_fare_table = 3" by (simp add: zero_fare_table_def)
  from failed_load_state [of no_files "''files/missing.csv''" "\<lparr>yellow_taxi = Some zero_fare_table\<rparr>"] n
  have "load_csv_to_duckdb no_files ''files/missing.csv'' \<lparr>yellow_taxi = Some zero_fare_table\<rparr> =
     ((False, 0), \<lparr>yellow_taxi = None\<rparr>)" by simp
  moreover from failed_load_state [of "no_files(''files/a.csv'' := Some zero_fare_table)" "''files/a.csv''" "\<lparr>yellow_taxi = None\<rparr>"] s l
  have "load_csv_to_duckdb (no_files(''files/a.csv'' := Some zero_fare_table)) ''files/a.csv'' \<lparr>yellow_taxi = None\<rparr> =
     ((True, 3), \<lparr>yellow_taxi = Some zero_fare_table\<rparr>)" by simp
  ultimately show ?thesis using n by blast
qed

section \<open>How failures are reported (C9)\<close>
















section \<open>The moving average (C5)\<close>

lemma take_drop_nth: "take k (drop m xs) = map ((!) xs) [m..<min (m + k) (length xs)]"
proof -
  have "take k (drop m xs) = take k (drop m (map ((!) xs) [0..<length xs]))"
    by (simp add: map_nth)
  also have "\<dots> = map ((!) xs) (take k (drop m [0..<length xs]))"
    by (simp add: drop_map take_map)
  also have "take k (drop m [0..<length xs]) = [m..<min (m + k) (length xs)]"
    by (simp add: min_def)
  finally show ?thesis .
qed

lemma filter_upt_range:
  "[j \<leftarrow> [0..<n]. m \<le> j \<and> j \<le> e] = [m..<min (Suc e) n]"
proof (rule sorted_distinct_set_unique)
  show "sorted [j \<leftarrow> [0..<n]. m \<le> j \<and> j \<le> e]" by (simp add: sorted_wrt_filter)
  show "set [j \<leftarrow> [0..<n]. m \<le> j \<and> j \<le> e] = set [m..<min (Suc e) n]" by auto
qed simp_all

lemma rows_between_nth:
  "rows_between a b p xs = map ((!) xs) [j \<leftarrow> [0..<length xs]. p - a \<le> j \<and> j \<le> p + b]"
proof -
  have "p - a + (p + b + 1 - (p - a)) = Suc (p + b)" by simp
  then show ?thesis
    unfolding rows_between_def take_drop_nth filter_upt_range by simp
qed

lemma order_by_length [simp]: "length (order_by key tbl) = length tbl"
  by (simp add: order_by_def)

lemma order_by_set [simp]: "set (order_by key tbl) = {0..<length tbl}"
  by (simp add: order_by_def)

lemma order_by_distinct [simp]: "distinct (order_by key tbl)"
  by (simp add: order_by_def)

lemma order_by_sorted: "sorted (map (\<lambda>i. key (tbl ! i)) (order_by key tbl))"
  by (simp add: order_by_def)

lemma nat_window: "(int p - int r \<le> int j \<and> int j \<le> int p + int r) \<longleftrightarrow> (p - r \<le> j \<and> j \<le> p + r)"
  by auto

text \<open>
  C5. With the rows ordered by the ordering column (a sorted permutation of the row
  ids), the moving average with radius \<open>radius\<close> at position \<open>p\<close> of the order is the
  \<^verbatim>\<open>AVG\<close> of the value column over exactly the rows at the positions \<open>j\<close> of the order with
  \<open>p - radius \<le> j \<le> p + radius\<close> and \<open>0 \<le> j < N\<close>; the query of the source is the case
  of radius 10000, ordered by pickup time, over the fare.
\<close>

theorem moving_average_window:
  assumes "p < length tbl"
  shows "moving_average radius key val tbl ! p =
           (order_by key tbl ! p,
            sql_avg (map (\<lambda>j. val (tbl ! (order_by key tbl ! j)))
                       [j \<leftarrow> [0..<length tbl].
                          int p - int radius \<le> int j \<and> int j \<le> int p + int radius])) \<and>
         sorted (map (\<lambda>i. key (tbl ! i)) (order_by key tbl)) \<and>
         distinct (order_by key tbl) \<and>
         set (order_by key tbl) = {0..<length tbl} \<and>
         moving_avg_fare tbl =
           moving_average 10000 (\<lambda>r. nulls_last (tpep_pickup_datetime r)) fare_amount tbl"
proof -
  let ?ord = "order_by key tbl"
  let ?vals = "map (\<lambda>i. val (tbl ! i)) ?ord"
  let ?js = "[j \<leftarrow> [0..<length tbl]. p - radius \<le> j \<and> j \<le> p + radius]"
  have "map ((!) ?vals) ?js = map (\<lambda>j. val (tbl ! (?ord ! j))) ?js"
    by (rule map_cong) simp_all
  then have "rows_between radius radius p ?vals = map (\<lambda>j. val (tbl ! (?ord ! j))) ?js"
    by (simp add: rows_between_nth)
  then have "moving_average radius key val tbl ! p =
           (order_by key tbl ! p,
            sql_avg (map (\<lambda>j. val (tbl ! (order_by key tbl ! j)))
                       [j \<leftarrow> [0..<length tbl].
                          int p - int radius \<le> int j \<and> int j \<le> int p + int radius]))"
    using assms by (simp add: moving_average_def Let_def nat_window)
  then show ?thesis
    by (simp add: order_by_sorted moving_avg_fare_def)
qed

lemma five_fares_order:
  "order_by (\<lambda>r. nulls_last (tpep_pickup_datetime r)) five_fares_table = [1, 3, 4, 0, 2]"
  by code_simp

theorem moving_average_window_witness:
  "(0::nat) < length five_fares_table \<and>
   moving_average 2 (\<lambda>r. nulls_last (tpep_pickup_datetime r)) fare_amount five_fares_table ! 0 =
     (1, sql_avg [Some 10, Some 20, Some 30]) \<and>
   sql_avg [Some 10, Some 20, Some 30] = Some 20"
proof -
  have l: "(0::nat) < length five_fares_table" by (simp add: five_fares_table_def)
  have js: "[j \<leftarrow> [0..<length five_fares_table]. int 0 - int 2 \<le> int j \<and> int j \<le> int 0 + int 2] = [0, 1, 2]"
    by (simp add: five_fares_table_def upt_rec)
  have "moving_average 2 (\<lambda>r. nulls_last (tpep_pickup_datetime r)) fare_amount five_fares_table ! 0 =
     (1, sql_avg [Some 10, Some 20, Some 30])"
    using moving_average_window [OF l, of 2 "\<lambda>r. nulls_last (tpep_pickup_datetime r)" fare_amount]
    unfolding js five_fares_order
    by (simp add: five_fares_table_def)
  moreover have "sql_avg [Some 10, Some 20, Some 30] = Some 20"
    by (simp add: sql_avg_def)
  ultimately show ?thesis using l by blast
qed

section \<open>The partitioned rank (C6)\<close>

text \<open>
  C6, as stated, fails: the column is computed with \<^verbatim>\<open>RANK()\<close>, which gives rows with the
  same fare the same rank. Rows 0 and 1 are on the same day with the same fare and both
  have rank 1; the next row of that day has rank 3.
\<close>

theorem rank_ties_counterexample:
  "map day_of_month tied_fares_table = [Some 1, Some 1, Some 1, Some 2] \<and>
   map fare_amount tied_fares_table = [Some 20, Some 20, Some 10, Some 5] \<and>
   day_fare_rank tied_fares_table = [(0, 1), (1, 1), (2, 3), (3, 1)]"
  by (intro conjI; code_simp)

lemma length_filter_strict:
  "(\<And>x. x \<in> set xs \<Longrightarrow> P x \<Longrightarrow> Q x) \<Longrightarrow> y \<in> set xs \<Longrightarrow> Q y \<Longrightarrow> \<not> P y \<Longrightarrow>
   length (filter P xs) < length (filter Q xs)"
proof (induction xs)
  case Nil
  then show ?case by simp
next
  case (Cons x xs)
  have le: "length (filter P xs) \<le> length (filter Q xs)"
  proof -
    have "filter P xs = filter P (filter Q xs)"
      using Cons.prems(1) by (auto simp: filter_filter intro: filter_cong)
    then show ?thesis by (metis length_filter_le)
  qed
  show ?case
  proof (cases "y = x")
    case True
    with Cons.prems le show ?thesis by simp
  next
    case False
    with Cons.prems have "y \<in> set xs" by simp
    with Cons have "length (filter P xs) < length (filter Q xs)" by simp
    with Cons.prems(1) [of x] show ?thesis by auto
  qed
qed

lemma desc_precedes_irrefl: "\<not> desc_precedes a a"
  by (cases a) (simp_all add: desc_precedes_def)

lemma desc_precedes_trans: "desc_precedes a b \<Longrightarrow> desc_precedes b c \<Longrightarrow> desc_precedes a c"
  by (cases a; cases b; cases c) (simp_all add: desc_precedes_def)

lemma desc_precedes_total: "desc_precedes a b \<or> a = b \<or> desc_precedes b a"
  by (cases a; cases b) (auto simp: desc_precedes_def)

lemma fare_rank_less:
  assumes "i < length tbl" "j < length tbl"
    and "day_of_month (tbl ! i) = day_of_month (tbl ! j)"
    and "desc_precedes (fare_amount (tbl ! i)) (fare_amount (tbl ! j))"
  shows "fare_rank tbl i < fare_rank tbl j"
proof -
  have "length (filter (\<lambda>r'. day_of_month r' = day_of_month (tbl ! i) \<and>
                            desc_precedes (fare_amount r') (fare_amount (tbl ! i))) tbl)
      < length (filter (\<lambda>r'. day_of_month r' = day_of_month (tbl ! j) \<and>
                            desc_precedes (fare_amount r') (fare_amount (tbl ! j))) tbl)"
  proof (rule length_filter_strict [where y = "tbl ! i"])
    show "tbl ! i \<in> set tbl" using assms(1) by simp
  qed (use assms in \<open>auto intro: desc_precedes_trans simp: desc_precedes_irrefl\<close>)
  then show ?thesis by (simp add: fare_rank_def rank_over_def)
qed

lemma fare_rank_eq:
  assumes "day_of_month (tbl ! i) = day_of_month (tbl ! j)"
    and "fare_amount (tbl ! i) = fare_amount (tbl ! j)"
  shows "fare_rank tbl i = fare_rank tbl j"
  using assms by (simp add: fare_rank_def rank_over_def)

lemma fare_rank_bounds:
  assumes "i < length tbl"
  shows "1 \<le> fare_rank tbl i" and "fare_rank tbl i \<le> length (filter (\<lambda>r'. day_of_month r' = day_of_month (tbl ! i)) tbl)"
proof -
  show "1 \<le> fare_rank tbl i" by (simp add: fare_rank_def rank_over_def)
  have "length (filter (\<lambda>r'. day_of_month r' = day_of_month (tbl ! i) \<and>
                            desc_precedes (fare_amount r') (fare_amount (tbl ! i))) tbl)
      < length (filter (\<lambda>r'. day_of_month r' = day_of_month (tbl ! i)) tbl)"
  proof (rule length_filter_strict [where y = "tbl ! i"])
    show "tbl ! i \<in> set tbl" using assms(1) by simp
  qed (auto simp: desc_precedes_irrefl)
  then show "fare_rank tbl i \<le> length (filter (\<lambda>r'. day_of_month r' = day_of_month (tbl ! i)) tbl)"
    by (simp add: fare_rank_def rank_over_def)
qed

lemma fare_rank_first:
  assumes "i < length tbl"
  shows "\<exists>j<length tbl. day_of_month (tbl ! j) = day_of_month (tbl ! i) \<and> fare_rank tbl j = 1"
  using assms
proof (induction "fare_rank tbl i" arbitrary: i rule: less_induct)
  case less
  show ?case
  proof (cases "filter (\<lambda>r'. day_of_month r' = day_of_month (tbl ! i) \<and>
                      desc_precedes (fare_amount r') (fare_amount (tbl ! i))) tbl = []")
    case True
    then have "fare_rank tbl i = 1" by (simp add: fare_rank_def rank_over_def)
    with less.prems show ?thesis by blast
  next
    case False
    then obtain r' where r': "r' \<in> set tbl" "day_of_month r' = day_of_month (tbl ! i)"
        "desc_precedes (fare_amount r') (fare_amount (tbl ! i))"
      by (auto simp: filter_empty_conv)
    then obtain j' where j': "j' < length tbl" "tbl ! j' = r'"
      by (auto simp: in_set_conv_nth)
    have "fare_rank tbl j' < fare_rank tbl i"
      using j' r' less.prems by (intro fare_rank_less) simp_all
    from less.hyps [OF this j'(1)] j' r' show ?thesis by auto
  qed
qed

text \<open>
  C6, amended. Rows are partitioned by the day of the month of the pickup and ranked
  by fare descending (NULL fares last); the rank of a row is one plus the number of
  rows of its partition with a fare that comes strictly before its own. So the ranks of
  a partition of \<open>k\<close> rows lie in 1..k, some row of each partition has rank 1, a row with
  a fare that comes strictly before another's has a strictly smaller rank, and two rows
  of a partition have the same rank exactly when they have the same fare.
\<close>

theorem rank_within_partition:
  assumes "i < length tbl" and "j < length tbl"
    and "day_of_month (tbl ! i) = day_of_month (tbl ! j)"
  shows "day_fare_rank tbl ! i = (i, fare_rank tbl i) \<and>
         fare_rank tbl i =
           1 + length (filter (\<lambda>r. day_of_month r = day_of_month (tbl ! i) \<and>
                                  desc_precedes (fare_amount r) (fare_amount (tbl ! i))) tbl) \<and>
         1 \<le> fare_rank tbl i \<and>
         fare_rank tbl i \<le> length (filter (\<lambda>r. day_of_month r = day_of_month (tbl ! i)) tbl) \<and>
         (\<exists>m<length tbl. day_of_month (tbl ! m) = day_of_month (tbl ! i) \<and> fare_rank tbl m = 1) \<and>
         (desc_precedes (fare_amount (tbl ! i)) (fare_amount (tbl ! j)) \<longleftrightarrow>
            fare_rank tbl i < fare_rank tbl j) \<and>
         (fare_amount (tbl ! i) = fare_amount (tbl ! j) \<longleftrightarrow> fare_rank tbl i = fare_rank tbl j)"
proof -
  have lt: "desc_precedes (fare_amount (tbl ! i)) (fare_amount (tbl ! j)) \<Longrightarrow>
            fare_rank tbl i < fare_rank tbl j"
    using assms by (rule fare_rank_less)
  have gt: "desc_precedes (fare_amount (tbl ! j)) (fare_amount (tbl ! i)) \<Longrightarrow>
            fare_rank tbl j < fare_rank tbl i"
    using assms by (intro fare_rank_less) simp_all
  have eq: "fare_amount (tbl ! i) = fare_amount (tbl ! j) \<Longrightarrow> fare_rank tbl i = fare_rank tbl j"
    using assms(3) by (rule fare_rank_eq)
  note tri = desc_precedes_total [of "fare_amount (tbl ! i)" "fare_amount (tbl ! j)"]
  have a: "desc_precedes (fare_amount (tbl ! i)) (fare_amount (tbl ! j)) \<longleftrightarrow>
            fare_rank tbl i < fare_rank tbl j"
    using lt gt eq tri by force
  have b: "fare_amount (tbl ! i) = fare_amount (tbl ! j) \<longleftrightarrow> fare_rank tbl i = fare_rank tbl j"
    using lt gt eq tri by force
  have c: "day_fare_rank tbl ! i = (i, fare_rank tbl i)"
    using assms(1) by (simp add: day_fare_rank_def)
  have d: "fare_rank tbl i =
           1 + length (filter (\<lambda>r. day_of_month r = day_of_month (tbl ! i) \<and>
                                  desc_precedes (fare_amount r) (fare_amount (tbl ! i))) tbl)"
    by (simp add: fare_rank_def rank_over_def)
  from a b c d fare_rank_bounds [OF assms(1)] fare_rank_first [OF assms(1)]
  show ?thesis by blast
qed

theorem rank_within_partition_witness:
  "(0::nat) < length tied_fares_table \<and> (1::nat) < length tied_fares_table \<and>
   day_of_month (tied_fares_table ! 0) = day_of_month (tied_fares_table ! 1) \<and>
   fare_amount (tied_fares_table ! 0) = fare_amount (tied_fares_table ! 1) \<and>
   fare_rank tied_fares_table 0 = fare_rank tied_fares_table 1 \<and>
   day_fare_rank tied_fares_table ! 0 = (0, fare_rank tied_fares_table 0)"
proof -
  have l: "(0::nat) < length tied_fares_table" "(1::nat) < length tied_fares_table"
    by (simp_all add: tied_fares_table_def)
  have d: "day_of_month (tied_fares_table ! 0) = day_of_month (tied_fares_table ! 1)"
    by code_simp
  have f: "fare_amount (tied_fares_table ! 0) = fare_amount (tied_fares_table ! 1)"
    by (simp add: tied_fares_table_def)
  from rank_within_partition [OF l d] f l d show ?thesis by blast
qed

section \<open>The percentile tiles (C7)\<close>

lemma div_eq_iff_nat:
  fixes p d c :: nat
  assumes "0 < d"
  shows "p div d = c \<longleftrightarrow> c * d \<le> p \<and> p < Suc c * d"
proof
  assume e: "p div d = c"
  have "p div d * d \<le> p" by simp
  moreover have "p < Suc (p div d) * d"
    using assms by (simp add: dividend_less_div_times add.commute)
  ultimately show "c * d \<le> p \<and> p < Suc c * d" using e by simp
next
  assume "c * d \<le> p \<and> p < Suc c * d"
  then show "p div d = c"
    using assms by (intro div_nat_eqI) (simp_all add: mult.commute)
qed

lemma ntile_small:
  assumes "p < (N mod T) * (N div T + 1)"
  shows "ntile_bucket T N p = 1 + p div (N div T + 1)"
  using assms by (simp add: ntile_bucket_def Let_def)

lemma ntile_large:
  assumes "\<not> p < (N mod T) * (N div T + 1)"
  shows "ntile_bucket T N p = 1 + N mod T + (p - (N mod T) * (N div T + 1)) div (N div T)"
  using assms by (simp add: ntile_bucket_def Let_def)

lemma N_split:
  fixes N T :: nat
  shows "N = (N mod T) * (N div T + 1) + (T - N mod T) * (N div T)"
proof (cases "T = 0")
  case True
  then show ?thesis by simp
next
  case False
  then have "N mod T \<le> T" by simp
  have "(N mod T) * (N div T + 1) + (T - N mod T) * (N div T) = (N mod T) * (N div T) + N mod T + (T - N mod T) * (N div T)"
    by simp
  also have "\<dots> = (N mod T + (T - N mod T)) * (N div T) + N mod T"
    by (simp add: algebra_simps)
  also have "\<dots> = T * (N div T) + N mod T" using \<open>N mod T \<le> T\<close> by simp
  finally show ?thesis by simp
qed

lemma ntile_bucket_eq_iff:
  assumes "0 < T" "1 \<le> b" "b \<le> T" "p < N"
  shows "ntile_bucket T N p = b \<longleftrightarrow>
     (if b \<le> N mod T
      then (b - 1) * (N div T + 1) \<le> p \<and> p < b * (N div T + 1)
      else (N mod T) * (N div T + 1) + (b - 1 - N mod T) * (N div T) \<le> p \<and>
           p < (N mod T) * (N div T + 1) + (b - N mod T) * (N div T))"
proof -
  define q where "q = N div T"
  define m where "m = N mod T"
  define big where "big = m * (q + 1)"
  have N: "N = big + (T - m) * q"
    unfolding big_def q_def m_def by (rule N_split)
  show ?thesis
  proof (cases "p < big")
    case small: True
    then have bk: "ntile_bucket T N p = 1 + p div (q + 1)"
      unfolding big_def q_def m_def by (rule ntile_small)
    have lt: "p div (q + 1) < m"
      using small unfolding big_def by (simp add: less_mult_imp_div_less)
    show ?thesis
    proof (cases "b \<le> m")
      case True
      have "1 + p div (q + 1) = b \<longleftrightarrow> p div (q + 1) = b - 1" using assms(2) by auto
      also have "\<dots> \<longleftrightarrow> (b - 1) * (q + 1) \<le> p \<and> p < Suc (b - 1) * (q + 1)"
        by (rule div_eq_iff_nat) simp
      also have "Suc (b - 1) = b" using assms(2) by simp
      finally show ?thesis using True bk by (simp add: q_def m_def)
    next
      case False
      then have "ntile_bucket T N p \<noteq> b" using bk lt by simp
      moreover have "\<not> (big + (b - 1 - m) * q \<le> p)" using small by simp
      ultimately show ?thesis using False by (simp add: q_def m_def big_def)
    qed
  next
    case large: False
    then have bk: "ntile_bucket T N p = 1 + m + (p - big) div q"
      unfolding big_def q_def m_def by (rule ntile_large)
    have qpos: "0 < q"
    proof (rule ccontr)
      assume "\<not> 0 < q"
      then have "N = big" using N by simp
      with large assms(4) show False by simp
    qed
    show ?thesis
    proof (cases "b \<le> m")
      case True
      then have "ntile_bucket T N p \<noteq> b" using bk by simp
      moreover have "b * (q + 1) \<le> big" unfolding big_def using True by (rule mult_le_mono1)
      then have "\<not> p < b * (q + 1)" using large by simp
      ultimately show ?thesis using True by (simp add: q_def m_def)
    next
      case False
      then have bm: "m < b" by simp
      have "1 + m + (p - big) div q = b \<longleftrightarrow> (p - big) div q = b - 1 - m" using bm by auto
      also have "\<dots> \<longleftrightarrow> (b - 1 - m) * q \<le> p - big \<and> p - big < Suc (b - 1 - m) * q"
        by (rule div_eq_iff_nat) (rule qpos)
      also have "Suc (b - 1 - m) = b - m" using bm by simp
      also have "(b - 1 - m) * q \<le> p - big \<and> p - big < (b - m) * q \<longleftrightarrow>
                 big + (b - 1 - m) * q \<le> p \<and> p < big + (b - m) * q"
        using large by auto
      finally show ?thesis using False bk by (simp add: q_def m_def big_def)
    qed
  qed
qed


lemma filter_upt_interval:
  "[j \<leftarrow> [0..<n]. lo \<le> j \<and> j < hi] = [lo..<min hi n]"
proof (rule sorted_distinct_set_unique)
  show "sorted [j \<leftarrow> [0..<n]. lo \<le> j \<and> j < hi]" by (simp add: sorted_wrt_filter)
  show "set [j \<leftarrow> [0..<n]. lo \<le> j \<and> j < hi] = set [lo..<min hi n]" by auto
qed simp_all

lemma ntile_bucket_size:
  assumes "0 < T" "1 \<le> b" "b \<le> T"
  shows "length (filter (\<lambda>p. ntile_bucket T N p = b) [0..<N]) =
           N div T + (if b \<le> N mod T then 1 else 0)"
proof -
  define q where "q = N div T"
  define m where "m = N mod T"
  define big where "big = m * (q + 1)"
  have N: "N = big + (T - m) * q"
    unfolding big_def q_def m_def by (rule N_split)
  show ?thesis
  proof (cases "b \<le> m")
    case True
    have "filter (\<lambda>p. ntile_bucket T N p = b) [0..<N] =
          filter (\<lambda>p. (b - 1) * (q + 1) \<le> p \<and> p < b * (q + 1)) [0..<N]"
      by (rule filter_cong) (use assms True in \<open>simp_all add: ntile_bucket_eq_iff q_def m_def\<close>)
    also have "\<dots> = [(b - 1) * (q + 1)..<min (b * (q + 1)) N]"
      by (rule filter_upt_interval)
    finally have "length (filter (\<lambda>p. ntile_bucket T N p = b) [0..<N]) =
          min (b * (q + 1)) N - (b - 1) * (q + 1)" by simp
    moreover have "b * (q + 1) \<le> big" unfolding big_def using True by (rule mult_le_mono1)
    then have "min (b * (q + 1)) N = b * (q + 1)" using N by simp
    moreover have "b * (q + 1) - (b - 1) * (q + 1) = q + 1"
    proof -
      have "b = Suc (b - 1)" using assms(2) by simp
      then have "b * (q + 1) = (b - 1) * (q + 1) + (q + 1)" by (metis add.commute mult_Suc)
      then show ?thesis by simp
    qed
    ultimately show ?thesis using True by (simp add: q_def m_def)
  next
    case False
    then have bm: "m < b" by simp
    have "filter (\<lambda>p. ntile_bucket T N p = b) [0..<N] =
          filter (\<lambda>p. big + (b - 1 - m) * q \<le> p \<and> p < big + (b - m) * q) [0..<N]"
      by (rule filter_cong) (use assms False in \<open>simp_all add: ntile_bucket_eq_iff q_def m_def big_def\<close>)
    also have "\<dots> = [big + (b - 1 - m) * q..<min (big + (b - m) * q) N]"
      by (rule filter_upt_interval)
    finally have "length (filter (\<lambda>p. ntile_bucket T N p = b) [0..<N]) =
          min (big + (b - m) * q) N - (big + (b - 1 - m) * q)" by simp
    moreover have "(b - m) * q \<le> (T - m) * q" using assms(3) by (intro mult_le_mono1) simp
    then have "min (big + (b - m) * q) N = big + (b - m) * q" using N by simp
    moreover have "(b - m) * q - (b - 1 - m) * q = q"
    proof -
      have "b - m = Suc (b - 1 - m)" using bm by simp
      then show ?thesis by simp
    qed
    ultimately show ?thesis using False by (simp add: q_def m_def)
  qed
qed

lemma ntile_bucket_range:
  assumes "0 < T" "p < N"
  shows "1 \<le> ntile_bucket T N p \<and> ntile_bucket T N p \<le> T"
proof -
  define q where "q = N div T"
  define m where "m = N mod T"
  define big where "big = m * (q + 1)"
  have N: "N = big + (T - m) * q"
    unfolding big_def q_def m_def by (rule N_split)
  have mT: "m < T" using assms(1) by (simp add: m_def)
  show ?thesis
  proof (cases "p < big")
    case True
    then have bk: "ntile_bucket T N p = 1 + p div (q + 1)"
      unfolding big_def q_def m_def by (rule ntile_small)
    have "p div (q + 1) < m"
      using True unfolding big_def by (simp add: less_mult_imp_div_less)
    with bk mT show ?thesis by simp
  next
    case False
    then have bk: "ntile_bucket T N p = 1 + m + (p - big) div q"
      unfolding big_def q_def m_def by (rule ntile_large)
    have "p - big < (T - m) * q" using False assms(2) N by simp
    then have "(p - big) div q < T - m" by (simp add: less_mult_imp_div_less)
    with bk mT show ?thesis by simp
  qed
qed

lemma ntile_bucket_mono:
  assumes "p \<le> p'"
  shows "ntile_bucket T N p \<le> ntile_bucket T N p'"
proof -
  define q where "q = N div T"
  define m where "m = N mod T"
  define big where "big = m * (q + 1)"
  show ?thesis
  proof (cases "p' < big")
    case True
    with assms have "p < big" by simp
    with True show ?thesis
      unfolding big_def q_def m_def using assms by (simp add: ntile_small div_le_mono)
  next
    case False
    show ?thesis
    proof (cases "p < big")
      case True
      then have "p div (q + 1) < m" unfolding big_def by (simp add: less_mult_imp_div_less)
      with True False show ?thesis
        unfolding big_def q_def m_def by (simp add: ntile_small ntile_large)
    next
      case pl: False
      have "(p - big) div q \<le> (p' - big) div q" using assms by (intro div_le_mono) simp
      with pl False show ?thesis
        unfolding big_def q_def m_def by (simp add: ntile_small ntile_large)
    qed
  qed
qed

lemma tile_count_percentile_tile:
  "tile_count b (percentile_tile T key tbl) =
     length (filter (\<lambda>p. ntile_bucket T (length tbl) p = b) [0..<length tbl])"
  by (simp add: tile_count_def percentile_tile_def Let_def filter_map comp_def)

lemma many_trips_length: "length many_trips_table = 150"
  by (simp add: many_trips_table_def)

text \<open>
  C7, as stated, fails: the buckets are not of equal size when the tile count does not
  divide the number of rows. Two tiles over three rows hold 2 rows and 1 row; the 100
  tiles of the source over 150 rows hold 2 rows (tile 1) and 1 row (tile 100), and over
  three rows tiles 1 to 3 hold one row each and the others none.
\<close>

theorem unequal_tiles_counterexample:
  "distance_tiles 2 zero_fare_table = [(2, 1), (0, 1), (1, 2)] \<and>
   tile_count 1 (distance_tiles 2 zero_fare_table) = 2 \<and>
   tile_count 2 (distance_tiles 2 zero_fare_table) = 1 \<and>
   distance_percentile zero_fare_table = [(2, 1), (0, 2), (1, 3)] \<and>
   tile_count 1 (distance_percentile many_trips_table) = 2 \<and>
   tile_count 100 (distance_percentile many_trips_table) = 1"
proof (intro conjI)
  show "distance_tiles 2 zero_fare_table = [(2, 1), (0, 1), (1, 2)]" by code_simp
  then show "tile_count 1 (distance_tiles 2 zero_fare_table) = 2"
    and "tile_count 2 (distance_tiles 2 zero_fare_table) = 1"
    by (simp_all add: tile_count_def)
  show "distance_percentile zero_fare_table = [(2, 1), (0, 2), (1, 3)]" by code_simp
  show "tile_count 1 (distance_percentile many_trips_table) = 2"
    unfolding distance_percentile_def distance_tiles_def tile_count_percentile_tile
    by (simp add: ntile_bucket_size many_trips_length)
  show "tile_count 100 (distance_percentile many_trips_table) = 1"
    unfolding distance_percentile_def distance_tiles_def tile_count_percentile_tile
    by (simp add: ntile_bucket_size many_trips_length)
qed

text \<open>
  C7, amended. For a table of \<open>N\<close> rows and a tile count \<open>T > 0\<close>, the rows are taken in
  ascending order of the column (a sorted permutation of the row ids, NULLs last), the
  row at position \<open>p\<close> of the order gets tile \<open>ntile_bucket T N p\<close>, every tile index is
  in 1..T, the indices do not decrease along the order, and tile \<open>b\<close> holds
  \<open>N div T + 1\<close> rows when \<open>b \<le> N mod T\<close> and \<open>N div T\<close> rows otherwise: the sizes differ
  by at most one and are equal exactly when \<open>T\<close> divides \<open>N\<close>. The source uses \<open>T = 100\<close>
  over the trip distance.
\<close>

theorem percentile_tiles:
  assumes "0 < T"
  shows "map fst (percentile_tile T key tbl) = order_by key tbl \<and>
         sorted (map (\<lambda>i. key (tbl ! i)) (order_by key tbl)) \<and>
         distinct (order_by key tbl) \<and>
         set (order_by key tbl) = {0..<length tbl} \<and>
         map snd (percentile_tile T key tbl) = map (ntile_bucket T (length tbl)) [0..<length tbl] \<and>
         (\<forall>(i, t)\<in>set (percentile_tile T key tbl). 1 \<le> t \<and> t \<le> T) \<and>
         sorted (map snd (percentile_tile T key tbl)) \<and>
         (\<forall>b. 1 \<le> b \<and> b \<le> T \<longrightarrow>
            tile_count b (percentile_tile T key tbl) =
              length tbl div T + (if b \<le> length tbl mod T then 1 else 0)) \<and>
         distance_percentile tbl = percentile_tile 100 (\<lambda>r. nulls_last (trip_distance r)) tbl"
proof -
  have fst: "map fst (percentile_tile T key tbl) = order_by key tbl"
    using map_nth [of "order_by key tbl"]
    by (simp add: percentile_tile_def Let_def comp_def)
  have snd: "map snd (percentile_tile T key tbl) = map (ntile_bucket T (length tbl)) [0..<length tbl]"
    by (simp add: percentile_tile_def Let_def comp_def)
  have range: "\<forall>(i, t)\<in>set (percentile_tile T key tbl). 1 \<le> t \<and> t \<le> T"
    using assms by (auto simp: percentile_tile_def Let_def dest: ntile_bucket_range)
  have mono: "sorted (map snd (percentile_tile T key tbl))"
    unfolding snd by (simp add: sorted_map sorted_wrt_iff_nth_less ntile_bucket_mono)
  have sizes: "\<forall>b. 1 \<le> b \<and> b \<le> T \<longrightarrow>
            tile_count b (percentile_tile T key tbl) =
              length tbl div T + (if b \<le> length tbl mod T then 1 else 0)"
    using assms by (simp add: tile_count_percentile_tile ntile_bucket_size)
  from fst snd range mono sizes show ?thesis
    by (simp add: order_by_sorted distance_percentile_def distance_tiles_def)
qed

theorem percentile_tiles_witness:
  "(0::nat) < 2 \<and>
   percentile_tile 2 (\<lambda>r. nulls_last (trip_distance r)) zero_fare_table = [(2, 1), (0, 1), (1, 2)] \<and>
   tile_count 1 (percentile_tile 2 (\<lambda>r. nulls_last (trip_distance r)) zero_fare_table) = 2 \<and>
   tile_count 2 (percentile_tile 2 (\<lambda>r. nulls_last (trip_distance r)) zero_fare_table) = 1"
proof -
  have l: "length zero_fare_table = 3" by (simp add: zero_fare_table_def)
  have t: "(0::nat) < 2" by simp
  have v: "percentile_tile 2 (\<lambda>r. nulls_last (trip_distance r)) zero_fare_table = [(2, 1), (0, 1), (1, 2)]"
    by code_simp
  from percentile_tiles [OF t, of "\<lambda>r. nulls_last (trip_distance r)" zero_fare_table]
  have "tile_count 1 (percentile_tile 2 (\<lambda>r. nulls_last (trip_distance r)) zero_fare_table) = 2"
    and "tile_count 2 (percentile_tile 2 (\<lambda>r. nulls_last (trip_distance r)) zero_fare_table) = 1"
    by (simp_all add: l)
  with v show ?thesis by simp
qed

end
